theory Spec2Isabelle
  imports Main
begin

section \<open>Bytes, strings and the library calls of the package\<close>

text \<open>
  Go strings and byte slices are sequences of bytes; both are modelled as \<open>string\<close>
  (a list of 8-bit characters). A nil slice that the code tells apart from an empty
  one is an \<open>option\<close>.
\<close>

abbreviation CR :: char where "CR \<equiv> CHR 0x0D"
abbreviation LF :: char where "LF \<equiv> CHR 0x0A"
abbreviation TAB :: char where "TAB \<equiv> CHR 0x09"
abbreviation SP :: char where "SP \<equiv> CHR 0x20"

definition CRLF :: string where
  "CRLF = [CR, LF]"

text \<open>\<^verbatim>\<open>bufio.Reader.ReadBytes('\n')\<close> on a reader holding \<open>r\<close>: the bytes up to and
  including the first line feed and the rest of the stream, or \<open>None\<close> when the stream
  ends before a line feed (the call returns an error).\<close>

definition ReadBytes :: "string \<Rightarrow> (string \<times> string) option" where
  "ReadBytes r =
     (if LF \<in> set r
      then Some (takeWhile (\<lambda>c. c \<noteq> LF) r @ [LF], tl (dropWhile (\<lambda>c. c \<noteq> LF) r))
      else None)"

text \<open>\<^verbatim>\<open>bytes.TrimRight(line, "\t\r\n ")\<close> and \<^verbatim>\<open>bytes.TrimLeft(line, " ")\<close>.\<close>

definition TrimRight :: "string \<Rightarrow> char set \<Rightarrow> string" where
  "TrimRight s cutset = rev (dropWhile (\<lambda>c. c \<in> cutset) (rev s))"

definition TrimLeft :: "string \<Rightarrow> char set \<Rightarrow> string" where
  "TrimLeft s cutset = dropWhile (\<lambda>c. c \<in> cutset) s"

text \<open>\<^verbatim>\<open>bytes.Replace(line, "\t", " ", -1)\<close>: every tab becomes a space.\<close>

definition tabs_to_spaces :: "string \<Rightarrow> string" where
  "tabs_to_spaces s = map (\<lambda>c. if c = TAB then SP else c) s"

text \<open>\<^verbatim>\<open>regexp.MustCompile(`[ ]{2,}`).ReplaceAll(line, " ")\<close>: every maximal run of two
  or more spaces becomes one space; a single space is not a match.\<close>

function squeeze_spaces :: "string \<Rightarrow> string" where
  "squeeze_spaces [] = []"
| "squeeze_spaces (c # cs) =
     (if c = SP \<and> cs \<noteq> [] \<and> hd cs = SP
      then SP # squeeze_spaces (dropWhile (\<lambda>x. x = SP) cs)
      else c # squeeze_spaces cs)"
  by pat_completeness auto
termination
  by (relation "measure length") (auto simp: length_dropWhile_le less_Suc_eq_le)

section \<open>Body canonicalization and the body hash input\<close>

text \<open>The relaxed branch of the loop body of \<^verbatim>\<open>readBodyTo\<close>, applied to one line as
  \<open>ReadBytes\<close> returned it.\<close>

definition relax_line :: "string \<Rightarrow> string" where
  "relax_line line =
     (if length line > 2 then
        (let l1 = TrimRight line {TAB, CR, LF, SP};
             l2 = (if length l1 > 0 then
                     (let a = tabs_to_spaces l1;
                          b = squeeze_spaces a
                      in (case b of
                            [] \<Rightarrow> b
                          | c # _ \<Rightarrow> if c = SP then [SP] @ TrimLeft b {SP} else b))
                   else l1)
         in l2 @ [CR, LF])
      else line)"

text \<open>The state of the loop of \<^verbatim>\<open>readBodyTo\<close>: the bytes written to the writer so far,
  \<^verbatim>\<open>prev_line\<close> and \<^verbatim>\<open>tmp\<close>.\<close>

record body_state =
  written :: string
  prev_line :: string
  tmp :: string

definition body_init :: body_state where
  "body_init = \<lparr>written = [], prev_line = [], tmp = []\<rparr>"

text \<open>One iteration of the loop, for a line that was read without error.\<close>

definition body_step :: "bool \<Rightarrow> string \<Rightarrow> body_state \<Rightarrow> body_state" where
  "body_step relaxed line s =
     (let s1 = (if length (prev_line s) > 0
                then (let s0 = (if length (tmp s) > 0
                                then s\<lparr>written := written s @ tmp s, tmp := []\<rparr>
                                else s)
                      in s0\<lparr>written := written s0 @ prev_line s0, prev_line := []\<rparr>)
                else s)
      in if relaxed then
           (let line' = relax_line line
            in if length line' > 2 then s1\<lparr>prev_line := line'\<rparr>
               else s1\<lparr>tmp := tmp s1 @ [CR, LF]\<rparr>)
         else s1\<lparr>prev_line := line\<rparr>)"

function body_loop :: "bool \<Rightarrow> string \<Rightarrow> body_state \<Rightarrow> body_state" where
  "body_loop relaxed r s =
     (case ReadBytes r of
        None \<Rightarrow> s
      | Some (line, r') \<Rightarrow> body_loop relaxed r' (body_step relaxed line s))"
  by pat_completeness auto
termination
proof (relation "measure (\<lambda>(b, r, s). length r)")
  show "wf (measure (\<lambda>(b, r, s). length r))" by simp
next
  fix relaxed :: bool and r :: string and s :: body_state and x2 x y
  assume "ReadBytes r = Some x2" and "(x, y) = x2"
  then have "y = tl (dropWhile (\<lambda>c. c \<noteq> LF) r)" and "LF \<in> set r"
    by (auto simp: ReadBytes_def split: if_splits)
  moreover have "length (dropWhile (\<lambda>c. c \<noteq> LF) r) \<le> length r"
    by (rule length_dropWhile_le)
  moreover from \<open>LF \<in> set r\<close> have "dropWhile (\<lambda>c. c \<noteq> LF) r \<noteq> []"
    by simp
  ultimately have "length y < length r"
    by (cases "dropWhile (\<lambda>c. c \<noteq> LF) r") auto
  then show "((relaxed, y, body_step relaxed x s), (relaxed, r, s))
               \<in> measure (\<lambda>(b, r, s). length r)"
    by simp
qed

declare body_loop.simps [simp del]

text \<open>The code after the loop: what is still pending is written unless it is a lone
  line break.\<close>

definition body_finish :: "body_state \<Rightarrow> string" where
  "body_finish s =
     (if length (prev_line s) > 0 then
        (if prev_line s \<noteq> [CR, LF] then
           (if length (tmp s) > 0 then written s @ tmp s else written s) @ prev_line s
         else written s)
      else written s)"

text \<open>\<^verbatim>\<open>readBodyTo\<close>: the bytes the writer receives for the body stream \<open>body\<close>.\<close>

definition readBodyTo :: "bool \<Rightarrow> string \<Rightarrow> string" where
  "readBodyTo relaxed body = body_finish (body_loop relaxed body body_init)"

section \<open>Library calls of the signature-header parser\<close>

text \<open>\<^verbatim>\<open>strings.Replace(s, " ", "", -1)\<close>: every space is removed.\<close>

definition remove_spaces :: "string \<Rightarrow> string" where
  "remove_spaces s = filter (\<lambda>c. c \<noteq> SP) s"

text \<open>\<^verbatim>\<open>strings.Split(s, sep)\<close> for a one-byte separator: the pieces between the
  separators, one more piece than there are separators (so \<open>[[]]\<close> for the empty string).\<close>

fun Split :: "string \<Rightarrow> char \<Rightarrow> string list" where
  "Split [] sep = [[]]"
| "Split (c # cs) sep =
     (if c = sep then [] # Split cs sep
      else (let ps = Split cs sep in (c # hd ps) # tl ps))"

text \<open>\<^verbatim>\<open>strings.SplitN(s, sep, 2)\<close> for a one-byte separator: the string cut at the first
  separator, or the string alone when it has none.\<close>

definition SplitN2 :: "string \<Rightarrow> char \<Rightarrow> string list" where
  "SplitN2 s sep =
     (if sep \<in> set s
      then [takeWhile (\<lambda>c. c \<noteq> sep) s, tl (dropWhile (\<lambda>c. c \<noteq> sep) s)]
      else [s])"

text \<open>\<^verbatim>\<open>strings.HasPrefix\<close> and \<^verbatim>\<open>strings.HasSuffix\<close>.\<close>

definition HasPrefix :: "string \<Rightarrow> string \<Rightarrow> bool" where
  "HasPrefix s p = (take (length p) s = p)"

definition HasSuffix :: "string \<Rightarrow> string \<Rightarrow> bool" where
  "HasSuffix s p = (length p \<le> length s \<and> drop (length s - length p) s = p)"

text \<open>\<^verbatim>\<open>strconv.Atoi\<close> with a 64-bit \<^verbatim>\<open>int\<close>: an optional sign, then one or more decimal
  digits; \<open>None\<close> is a non-nil error (bad syntax, or a value outside the range of
  \<^verbatim>\<open>int\<close>).\<close>

definition is_digit :: "char \<Rightarrow> bool" where
  "is_digit c = (48 \<le> (of_char c :: nat) \<and> (of_char c :: nat) \<le> 57)"

definition digits_value :: "string \<Rightarrow> int" where
  "digits_value ds = foldl (\<lambda>a c. 10 * a + ((of_char c :: int) - 48)) 0 ds"

definition Atoi :: "string \<Rightarrow> int option" where
  "Atoi s =
     (let neg = (s \<noteq> [] \<and> hd s = CHR ''-'');
          ds = (if s \<noteq> [] \<and> (hd s = CHR ''-'' \<or> hd s = CHR ''+'') then tl s else s)
      in if ds = [] \<or> \<not> list_all is_digit ds then None
         else (let n = digits_value ds;
                   v = (if neg then - n else n)
               in if - (2 ^ 63) \<le> v \<and> v < 2 ^ 63 then Some v else None))"

text \<open>\<^verbatim>\<open>base64.StdEncoding.DecodeString\<close>: carriage returns and line feeds are skipped,
  the rest is read four characters at a time, padding is allowed in the last group
  only; \<open>None\<close> is a non-nil error. The decoded slice is never nil: it is made with
  \<^verbatim>\<open>make\<close>, also for the empty string.\<close>

definition b64_index :: "char \<Rightarrow> nat option" where
  "b64_index c =
     (let n = (of_char c :: nat)
      in if 65 \<le> n \<and> n \<le> 90 then Some (n - 65)
         else if 97 \<le> n \<and> n \<le> 122 then Some (n - 71)
         else if 48 \<le> n \<and> n \<le> 57 then Some (n + 4)
         else if c = CHR ''+'' then Some 62
         else if c = CHR ''/'' then Some 63
         else None)"

definition b64_bytes :: "nat \<Rightarrow> nat \<Rightarrow> nat \<Rightarrow> nat \<Rightarrow> string" where
  "b64_bytes va vb vc vd =
     (let v = va * 262144 + vb * 4096 + vc * 64 + vd
      in [char_of (v div 65536), char_of (v div 256), char_of v])"

fun b64_quanta :: "string \<Rightarrow> string option" where
  "b64_quanta [] = Some []"
| "b64_quanta (a # b # c # d # rest) =
     (case (b64_index a, b64_index b) of
        (Some va, Some vb) \<Rightarrow>
          (if c = CHR ''='' then
             (if d = CHR ''='' \<and> rest = [] then Some (take 1 (b64_bytes va vb 0 0)) else None)
           else (case b64_index c of
                   None \<Rightarrow> None
                 | Some vc \<Rightarrow>
                     (if d = CHR ''='' then
                        (if rest = [] then Some (take 2 (b64_bytes va vb vc 0)) else None)
                      else (case b64_index d of
                              None \<Rightarrow> None
                            | Some vd \<Rightarrow>
                                (case b64_quanta rest of
                                   None \<Rightarrow> None
                                 | Some out \<Rightarrow> Some (b64_bytes va vb vc vd @ out))))))
      | _ \<Rightarrow> None)"
| "b64_quanta _ = None"

definition DecodeString :: "string \<Rightarrow> string option" where
  "DecodeString s = b64_quanta (filter (\<lambda>c. c \<noteq> CR \<and> c \<noteq> LF) s)"

section \<open>The data model\<close>

text \<open>The error values of the package, \<^verbatim>\<open>errors.New\<close> with its message, and a run-time
  panic.\<close>

datatype error =
    ErrSignatureNotFound
  | ErrUnsupportedVersion
  | ErrUnsupportedAlgorithm
  | ErrMalformedTagValue
  | ErrUnsupportedQueryType
  | ErrUnsupportedTag
  | ErrorsNew string
  | Panic

text \<open>Modelled from the spec: the declarations of the structs \<^verbatim>\<open>DKIMHeader\<close> and
  \<^verbatim>\<open>DKIM\<close> (with its \<^verbatim>\<open>Status\<close>) and of \<^verbatim>\<open>CustomHandlers\<close> are not among the
  sources. The records below have the fields that the functions read and write, with
  the types of those uses; \<^verbatim>\<open>mail.Header\<close> is the map from a canonical header name to
  its values in order (no values for a name that is absent), and the body reader is the
  bytes it still holds.\<close>

record DKIMHeader =
  Version :: string
  Algorithm :: string
  Signature :: string
  BodyHash :: string
  Canonization :: string
  Domain' :: string
  Headers :: "string list"
  Identifier :: string
  Length' :: int
  QueryType :: string
  Selector :: string
  Unixtime :: int
  Expiration :: int
  CopiedHeaders :: "(string \<rightharpoonup> string) option"

record Message =
  mail_Header :: "string \<Rightarrow> string list"
  mail_Body :: string

record DKIMPublicKey =
  pk_Key :: string
  pk_Version :: string
  pk_Tag :: string
  pk_PublicKey :: "string option"

record Status =
  Valid :: bool
  ValidBody :: bool
  HasPublicKey :: bool

record DKIM =
  Header :: DKIMHeader
  Mail :: Message
  RawMailHeader :: "string \<Rightarrow> string list"
  HeaderName :: string
  PublicKey :: "DKIMPublicKey option"
  Status :: Status
  IsBodyRelaxed :: bool
  IsHeaderRelaxed :: bool
  bodyHash :: "string option"
  headerHash :: "string option"

datatype Hash = SHA1 | SHA256

datatype 'k PKIX = RSAPublicKey 'k | OtherPublicKey

text \<open>What the package calls outside itself, taken as parameters:
  \<^verbatim>\<open>textproto.CanonicalMIMEHeaderKey\<close>; \<^verbatim>\<open>strings.ToLower\<close>; a digest (\<^verbatim>\<open>crypto.Hash.New\<close>, the writes and
  \<^verbatim>\<open>Sum(nil)\<close>) as a function of the bytes written; \<^verbatim>\<open>x509.ParsePKIXPublicKey\<close>
  (\<open>None\<close> is an error; a key is an RSA key or of another kind);
  \<^verbatim>\<open>rsa.VerifyPKCS1v15\<close> (true when it returns no error); and the three handlers of
  \<^verbatim>\<open>CustomHandlers\<close>, which act on a state \<open>'w\<close> of their own (\<open>None\<close> is a non-nil
  error).\<close>

record ('k, 'w) externals =
  CanonicalMIMEHeaderKey :: "string \<Rightarrow> string"
  ToLower :: "string \<Rightarrow> string"
  HashSum :: "Hash \<Rightarrow> string \<Rightarrow> string"
  ParsePKIXPublicKey :: "string \<Rightarrow> 'k PKIX option"
  VerifyPKCS1v15 :: "'k \<Rightarrow> Hash \<Rightarrow> string \<Rightarrow> string \<Rightarrow> bool"
  CacheGetHandler :: "string \<Rightarrow> 'w \<Rightarrow> string option \<times> 'w"
  DnsFetchHandler :: "string \<Rightarrow> 'w \<Rightarrow> string option \<times> 'w"
  CacheSetHandler :: "string \<Rightarrow> string \<Rightarrow> 'w \<Rightarrow> 'w"

text \<open>\<^verbatim>\<open>mail.Header.Get\<close>: the first value stored under the canonical form of the key,
  or the empty string.\<close>

definition Get :: "(string \<Rightarrow> string) \<Rightarrow> (string \<Rightarrow> string list) \<Rightarrow> string \<Rightarrow> string" where
  "Get canon h key = (case h (canon key) of [] \<Rightarrow> [] | v # _ \<Rightarrow> v)"

section \<open>Parsing the signature header\<close>

text \<open>The loop of the \<^verbatim>\<open>h\<close> case: a name is appended unless it equals \<^verbatim>\<open>prev_key\<close>,
  a variable of \<^verbatim>\<open>parseDKIM\<close> that starts as the empty string and lives for the whole
  header.\<close>

fun h_loop :: "string list \<Rightarrow> DKIM \<times> string \<Rightarrow> DKIM \<times> string" where
  "h_loop [] st = st"
| "h_loop (key # keys) (Dkim, prev_key) =
     (if prev_key \<noteq> key
      then h_loop keys
             (Dkim\<lparr>Header := (Header Dkim)\<lparr>Headers := Headers (Header Dkim) @ [key]\<rparr>\<rparr>, key)
      else h_loop keys (Dkim, prev_key))"

text \<open>The loop of the \<^verbatim>\<open>z\<close> case; indexing \<^verbatim>\<open>header_kv[1]\<close> panics for an entry
  without a colon.\<close>

fun z_loop :: "string list \<Rightarrow> (string \<rightharpoonup> string) \<Rightarrow> error + (string \<rightharpoonup> string)" where
  "z_loop [] m = Inr m"
| "z_loop (header_item # items) m =
     (let header_kv = SplitN2 header_item (CHR '':'')
      in if length header_kv < 2 then Inl Panic
         else z_loop items (m(header_kv ! 0 \<mapsto> header_kv ! 1)))"

text \<open>The \<^verbatim>\<open>switch key\<close> of \<^verbatim>\<open>parseDKIM\<close>.\<close>

definition parse_tag :: "DKIM \<times> string \<Rightarrow> string \<Rightarrow> string \<Rightarrow> error + DKIM \<times> string" where
  "parse_tag st key val =
     (let Dkim = fst st; prev_key = snd st; H = Header Dkim
      in if key = ''v'' then
           (if val \<noteq> ''1'' then Inl ErrUnsupportedVersion
            else Inr (Dkim\<lparr>Header := H\<lparr>Version := val\<rparr>\<rparr>, prev_key))
         else if key = ''a'' then
           (if val \<noteq> ''rsa-sha1'' \<and> val \<noteq> ''rsa-sha256'' then Inl ErrUnsupportedAlgorithm
            else Inr (Dkim\<lparr>Header := H\<lparr>Algorithm := val\<rparr>\<rparr>, prev_key))
         else if key = ''b'' then
           (case DecodeString val of
              None \<Rightarrow> Inl ErrMalformedTagValue
            | Some bs \<Rightarrow> Inr (Dkim\<lparr>Header := H\<lparr>Signature := bs\<rparr>\<rparr>, prev_key))
         else if key = ''bh'' then
           (case DecodeString val of
              None \<Rightarrow> Inl ErrMalformedTagValue
            | Some bs \<Rightarrow> Inr (Dkim\<lparr>Header := H\<lparr>BodyHash := bs\<rparr>\<rparr>, prev_key))
         else if key = ''c'' then
           Inr (Dkim\<lparr>Header := H\<lparr>Canonization := val\<rparr>,
                     IsBodyRelaxed := HasSuffix val ''/relaxed'',
                     IsHeaderRelaxed := HasPrefix val ''relaxed''\<rparr>, prev_key)
         else if key = ''d'' then
           Inr (Dkim\<lparr>Header := H\<lparr>Domain' := val\<rparr>\<rparr>, prev_key)
         else if key = ''h'' then
           Inr (h_loop (Split val (CHR '':'')) (Dkim, prev_key))
         else if key = ''i'' then
           Inr (Dkim\<lparr>Header := H\<lparr>Identifier := val\<rparr>\<rparr>, prev_key)
         else if key = ''l'' then
           (case Atoi val of
              None \<Rightarrow> Inl ErrMalformedTagValue
            | Some n \<Rightarrow> Inr (Dkim\<lparr>Header := H\<lparr>Length' := n\<rparr>\<rparr>, prev_key))
         else if key = ''q'' then
           (if val \<noteq> ''dns/txt'' \<and> val \<noteq> ''dns'' then Inl ErrUnsupportedQueryType
            else Inr (Dkim\<lparr>Header := H\<lparr>QueryType := ''dns/txt''\<rparr>\<rparr>, prev_key))
         else if key = ''s'' then
           Inr (Dkim\<lparr>Header := H\<lparr>Selector := val\<rparr>\<rparr>, prev_key)
         else if key = ''t'' then
           (case Atoi val of
              None \<Rightarrow> Inl ErrMalformedTagValue
            | Some n \<Rightarrow> Inr (Dkim\<lparr>Header := H\<lparr>Unixtime := n\<rparr>\<rparr>, prev_key))
         else if key = ''x'' then
           (case Atoi val of
              None \<Rightarrow> Inl ErrMalformedTagValue
            | Some n \<Rightarrow> Inr (Dkim\<lparr>Header := H\<lparr>Expiration := n\<rparr>\<rparr>, prev_key))
         else if key = ''z'' then
           (case z_loop (Split val (CHR ''|'')) Map.empty of
              Inl e \<Rightarrow> Inl e
            | Inr m \<Rightarrow> Inr (Dkim\<lparr>Header := H\<lparr>CopiedHeaders := Some m\<rparr>\<rparr>, prev_key))
         else Inl ErrUnsupportedTag)"

text \<open>The body of the loop over the items of the header: an item without \<^verbatim>\<open>=\<close> is
  skipped.\<close>

definition parse_item :: "DKIM \<times> string \<Rightarrow> string \<Rightarrow> error + DKIM \<times> string" where
  "parse_item st item =
     (let kvs = SplitN2 item (CHR ''='')
      in if length kvs \<noteq> 2 then Inr st else parse_tag st (kvs ! 0) (kvs ! 1))"

fun parse_items :: "string list \<Rightarrow> DKIM \<times> string \<Rightarrow> error + DKIM \<times> string" where
  "parse_items [] st = Inr st"
| "parse_items (item # items) st =
     (case parse_item st item of
        Inl e \<Rightarrow> Inl e
      | Inr st' \<Rightarrow> parse_items items st')"

definition parseDKIM :: "('k, 'w) externals \<Rightarrow> DKIM \<Rightarrow> error + DKIM" where
  "parseDKIM X Dkim =
     (let header = Get (CanonicalMIMEHeaderKey X) (mail_Header (Mail Dkim)) (HeaderName Dkim)
      in case parse_items (Split (remove_spaces header) (CHR '';'')) (Dkim, []) of
           Inl e \<Rightarrow> Inl e
         | Inr st \<Rightarrow> Inr (fst st))"

definition NewDKIM :: "('k, 'w) externals \<Rightarrow> string \<Rightarrow> Message \<Rightarrow> error + DKIM" where
  "NewDKIM X header msg =
     parseDKIM X
       \<lparr>Header = \<lparr>Version = ''1'', Algorithm = [], Signature = [], BodyHash = [],
                   Canonization = [], Domain' = [], Headers = [], Identifier = [],
                   Length' = 0, QueryType = [], Selector = [], Unixtime = 0,
                   Expiration = 0, CopiedHeaders = None\<rparr>,
        Mail = msg, RawMailHeader = (\<lambda>k. []), HeaderName = header, PublicKey = None,
        Status = \<lparr>Valid = False, ValidBody = False, HasPublicKey = False\<rparr>,
        IsBodyRelaxed = False, IsHeaderRelaxed = False,
        bodyHash = None, headerHash = None\<rparr>"

section \<open>Parsing the public-key record\<close>

text \<open>The \<^verbatim>\<open>switch key\<close> of \<^verbatim>\<open>newDKIMPublicKey\<close>; a tag it does not name is ignored.\<close>

definition pk_tag :: "DKIMPublicKey \<Rightarrow> string \<Rightarrow> string \<Rightarrow> error + DKIMPublicKey" where
  "pk_tag dkim_pk key val =
     (if key = ''v'' then
        (if val \<noteq> ''DKIM1'' then Inl (ErrorsNew ''invalid version'')
         else Inr (dkim_pk\<lparr>pk_Version := val\<rparr>))
      else if key = ''k'' then Inr (dkim_pk\<lparr>pk_Key := val\<rparr>)
      else if key = ''t'' then Inr (dkim_pk\<lparr>pk_Tag := val\<rparr>)
      else if key = ''p'' then
        (case DecodeString val of
           None \<Rightarrow> Inl (ErrorsNew ''invalid public'')
         | Some bs \<Rightarrow> Inr (dkim_pk\<lparr>pk_PublicKey := Some bs\<rparr>))
      else Inr dkim_pk)"

fun pk_items :: "string list \<Rightarrow> DKIMPublicKey \<Rightarrow> error + DKIMPublicKey" where
  "pk_items [] dkim_pk = Inr dkim_pk"
| "pk_items (item # items) dkim_pk =
     (let kvs = SplitN2 item (CHR ''='')
      in if length kvs \<noteq> 2 then pk_items items dkim_pk
         else (case pk_tag dkim_pk (kvs ! 0) (kvs ! 1) of
                 Inl e \<Rightarrow> Inl e
               | Inr dkim_pk' \<Rightarrow> pk_items items dkim_pk'))"

definition newDKIMPublicKey :: "string \<Rightarrow> error + DKIMPublicKey" where
  "newDKIMPublicKey txt =
     (case pk_items (Split (remove_spaces txt) (CHR '';''))
             \<lparr>pk_Key = [], pk_Version = [], pk_Tag = [], pk_PublicKey = None\<rparr> of
        Inl e \<Rightarrow> Inl e
      | Inr dkim_pk \<Rightarrow>
          (if pk_PublicKey dkim_pk = None then Inl (ErrorsNew ''empty'') else Inr dkim_pk))"

section \<open>Header canonicalization and the header hash input\<close>

text \<open>\<^verbatim>\<open>regexp.MustCompile(`[ \t]+`).ReplaceAll(body, " ")\<close>: every maximal run of spaces
  and tabs becomes one space.\<close>

function fold_wsp :: "string \<Rightarrow> string" where
  "fold_wsp [] = []"
| "fold_wsp (c # cs) =
     (if c = SP \<or> c = TAB
      then SP # fold_wsp (dropWhile (\<lambda>x. x = SP \<or> x = TAB) cs)
      else c # fold_wsp cs)"
  by pat_completeness auto
termination
  by (relation "measure length") (auto simp: length_dropWhile_le less_Suc_eq_le)

text \<open>\<^verbatim>\<open>regexp.MustCompile(` \r\n`).ReplaceAll(body, "\r\n")\<close>: the matches are found from
  left to right and do not overlap.\<close>

fun strip_sp_crlf :: "string \<Rightarrow> string" where
  "strip_sp_crlf (a # b # c # cs) =
     (if a = SP \<and> b = CR \<and> c = LF then CR # LF # strip_sp_crlf cs
      else a # strip_sp_crlf (b # c # cs))"
| "strip_sp_crlf cs = cs"

definition canonizeHeader :: "bool \<Rightarrow> string \<Rightarrow> string" where
  "canonizeHeader relaxed body =
     (if relaxed then
        (if length body = 0 then []
         else strip_sp_crlf (fold_wsp body))
      else
        (if length body = 0 then [] else body))"

text \<open>\<^verbatim>\<open>regexp.MustCompile(`b=[^;]+`).ReplaceAll(v, "b=")\<close>: wherever the two bytes
  \<^verbatim>\<open>b=\<close> are followed by a byte other than a semicolon, the bytes after \<^verbatim>\<open>b=\<close> up to
  the next semicolon (or the end) are dropped; the search goes on after the match.\<close>

function blank_b :: "string \<Rightarrow> string" where
  "blank_b (a # b # c # cs) =
     (if a = CHR ''b'' \<and> b = CHR ''='' \<and> c \<noteq> CHR '';''
      then CHR ''b'' # CHR ''='' # blank_b (dropWhile (\<lambda>x. x \<noteq> CHR '';'') cs)
      else a # blank_b (b # c # cs))"
| "blank_b [a, b] = [a, b]"
| "blank_b [a] = [a]"
| "blank_b [] = []"
  by pat_completeness auto
termination
  by (relation "measure length") (auto simp: length_dropWhile_le less_Suc_eq_le le_SucI)

definition dkimSignatureForHash :: "('k, 'w) externals \<Rightarrow> DKIM \<Rightarrow> string" where
  "dkimSignatureForHash X Dkim =
     (let header = (if IsHeaderRelaxed Dkim then mail_Header (Mail Dkim)
                    else RawMailHeader Dkim)
      in blank_b (Get (CanonicalMIMEHeaderKey X) header (HeaderName Dkim)))"

definition GetHasher :: "DKIM \<Rightarrow> Hash" where
  "GetHasher Dkim =
     (if Algorithm (Header Dkim) = ''rsa-sha1'' then SHA1
      else if Algorithm (Header Dkim) = ''rsa-sha256'' then SHA256
      else SHA256)"

text \<open>The loop of \<^verbatim>\<open>GetHeaderHash\<close> over the signed header names; \<open>buf\<close> is what the
  digest has been given so far.\<close>

fun header_loop ::
  "('k, 'w) externals \<Rightarrow> DKIM \<Rightarrow> (string \<Rightarrow> string list) \<Rightarrow> string list \<Rightarrow> string \<Rightarrow> string"
where
  "header_loop X Dkim header [] buf = buf"
| "header_loop X Dkim header (key # keys) buf =
     (let header_key = (if IsHeaderRelaxed Dkim then ToLower X key else key);
          header_values = header (CanonicalMIMEHeaderKey X key)
      in if length header_values = 0 then header_loop X Dkim header keys buf
         else (let header_value = header_values ! (length header_values - 1);
                   buf1 = buf @ (header_key @ '':'');
                   buf2 = buf1 @ canonizeHeader (IsHeaderRelaxed Dkim) header_value;
                   buf3 = (if IsHeaderRelaxed Dkim then buf2 @ [CR, LF] else buf2)
               in header_loop X Dkim header keys buf3))"

text \<open>All the bytes \<^verbatim>\<open>GetHeaderHash\<close> writes to the digest when nothing is memoized.\<close>

definition header_hash_input :: "('k, 'w) externals \<Rightarrow> DKIM \<Rightarrow> string" where
  "header_hash_input X Dkim =
     (let dkim_sig_key = (if IsHeaderRelaxed Dkim then ''dkim-signature'' else ''DKIM-Signature'');
          header = (if IsHeaderRelaxed Dkim then mail_Header (Mail Dkim) else RawMailHeader Dkim);
          buf = header_loop X Dkim header (Headers (Header Dkim)) [];
          buf1 = buf @ (dkim_sig_key @ '':'')
      in buf1 @ canonizeHeader (IsHeaderRelaxed Dkim) (dkimSignatureForHash X Dkim))"

definition GetHeaderHash :: "('k, 'w) externals \<Rightarrow> DKIM \<Rightarrow> DKIM \<times> string" where
  "GetHeaderHash X Dkim =
     (case headerHash Dkim of
        Some h \<Rightarrow> (Dkim, h)
      | None \<Rightarrow>
          (let h = HashSum X (GetHasher Dkim) (header_hash_input X Dkim)
           in (Dkim\<lparr>headerHash := Some h\<rparr>, h)))"

text \<open>\<^verbatim>\<open>GetBodyHash\<close>; reading the body leaves its reader empty.\<close>

definition GetBodyHash :: "('k, 'w) externals \<Rightarrow> DKIM \<Rightarrow> DKIM \<times> string" where
  "GetBodyHash X Dkim =
     (case bodyHash Dkim of
        Some h \<Rightarrow> (Dkim, h)
      | None \<Rightarrow>
          (let h = HashSum X (GetHasher Dkim)
                     (readBodyTo (IsBodyRelaxed Dkim) (mail_Body (Mail Dkim)))
           in (Dkim\<lparr>Mail := (Mail Dkim)\<lparr>mail_Body := []\<rparr>, bodyHash := Some h\<rparr>, h)))"

section \<open>Resolving the key and the verdict\<close>

text \<open>\<^verbatim>\<open>GetPublicKey\<close>: the handlers' state, the context and the returned pair (a key or
  an error) after the call.\<close>

definition GetPublicKey ::
  "('k, 'w) externals \<Rightarrow> 'w \<Rightarrow> DKIM \<Rightarrow> 'w \<times> DKIM \<times> (error + DKIMPublicKey)"
where
  "GetPublicKey X w Dkim =
     (let domain = Selector (Header Dkim) @ ''._domainkey.'' @ Domain' (Header Dkim) @ ''.''
      in case PublicKey Dkim of
           Some pk \<Rightarrow> (w, Dkim, Inr pk)
         | None \<Rightarrow>
             (let (r1, w1) = CacheGetHandler X domain w;
                  (r2, w2) = (case r1 of
                                Some public_key \<Rightarrow> (r1, w1)
                              | None \<Rightarrow>
                                  (let (r, w') = DnsFetchHandler X domain w1
                                   in case r of
                                        Some public_key \<Rightarrow>
                                          (r, CacheSetHandler X domain public_key w')
                                      | None \<Rightarrow> (r, w')))
              in case r2 of
                   Some public_key \<Rightarrow>
                     (case newDKIMPublicKey public_key of
                        Inl e \<Rightarrow> (w2, Dkim, Inl e)
                      | Inr dkim_pk \<Rightarrow>
                          (w2, Dkim\<lparr>Status := (Status Dkim)\<lparr>HasPublicKey := True\<rparr>\<rparr>,
                           Inr dkim_pk))
                 | None \<Rightarrow> (w2, Dkim, Inl (ErrorsNew ''no public key found''))))"

text \<open>\<^verbatim>\<open>bytes.Equal\<close>: a nil slice equals an empty one.\<close>

definition bytes_Equal :: "string \<Rightarrow> string \<Rightarrow> bool" where
  "bytes_Equal a b = (a = b)"

text \<open>The \<^verbatim>\<open>return\<close> statement of \<^verbatim>\<open>Verify\<close>.\<close>

definition verdict :: "DKIM \<Rightarrow> bool" where
  "verdict Dkim =
     (ValidBody (Status Dkim) \<and> Valid (Status Dkim) \<and> HasPublicKey (Status Dkim))"

text \<open>\<^verbatim>\<open>Verify\<close>: the handlers' state, the context and the returned boolean, or the panic
  of the type assertion \<^verbatim>\<open>pk.(*rsa.PublicKey)\<close> on a key of another kind.\<close>

definition Verify :: "('k, 'w) externals \<Rightarrow> 'w \<Rightarrow> DKIM \<Rightarrow> error + 'w \<times> DKIM \<times> bool" where
  "Verify X w Dkim =
     (if Domain' (Header Dkim) \<noteq> [] then
        (let (d1, bh) = GetBodyHash X Dkim;
             d2 = d1\<lparr>Status := (Status d1)\<lparr>ValidBody := bytes_Equal bh (BodyHash (Header d1))\<rparr>\<rparr>;
             (w1, d3, r) = GetPublicKey X w d2
         in case r of
              Inl e \<Rightarrow>
                (let d4 = d3\<lparr>PublicKey := None\<rparr> in Inr (w1, d4, verdict d4))
            | Inr dkim_pk \<Rightarrow>
                (let d4 = d3\<lparr>PublicKey := Some dkim_pk\<rparr>
                 in case ParsePKIXPublicKey X
                           (case pk_PublicKey dkim_pk of None \<Rightarrow> [] | Some der \<Rightarrow> der) of
                      None \<Rightarrow> Inr (w1, d4, verdict d4)
                    | Some OtherPublicKey \<Rightarrow> Inl Panic
                    | Some (RSAPublicKey pk) \<Rightarrow>
                        (let hasher = GetHasher d4;
                             (d5, hh) = GetHeaderHash X d4
                         in if VerifyPKCS1v15 X pk hasher hh (Signature (Header d5))
                            then (let d6 = d5\<lparr>Status := (Status d5)\<lparr>Valid := True\<rparr>\<rparr>
                                  in Inr (w1, d6, verdict d6))
                            else Inr (w1, d5, verdict d5))))
      else Inr (w, Dkim, verdict Dkim))"

section \<open>Notions used to state the properties\<close>

text \<open>A body made of whole lines: empty, or ending in a line feed.\<close>

definition complete_lines :: "string \<Rightarrow> bool" where
  "complete_lines B = (B = [] \<or> last B = LF)"





text \<open>A header value without tabs and without two spaces in a row, and one without a
  space right before a line break.\<close>

fun folded :: "string \<Rightarrow> bool" where
  "folded (a # b # cs) = (a \<noteq> TAB \<and> \<not> (a = SP \<and> b = SP) \<and> folded (b # cs))"
| "folded [a] = (a \<noteq> TAB)"
| "folded [] = True"

fun no_sp_crlf :: "string \<Rightarrow> bool" where
  "no_sp_crlf (a # b # c # cs) = (\<not> (a = SP \<and> b = CR \<and> c = LF) \<and> no_sp_crlf (b # c # cs))"
| "no_sp_crlf cs = True"

text \<open>The names of a list that differ from the name right before them, \<open>prev_key\<close>
  standing before the first.\<close>

definition kept_names :: "string \<Rightarrow> string list \<Rightarrow> string list" where
  "kept_names prev_key ks =
     map snd (filter (\<lambda>(prev, k). prev \<noteq> k) (zip (prev_key # ks) ks))"

text \<open>The field that the tag \<^verbatim>\<open>l\<close>, \<^verbatim>\<open>t\<close> or \<^verbatim>\<open>x\<close> sets.\<close>

definition int_tag_value :: "string \<Rightarrow> DKIMHeader \<Rightarrow> int" where
  "int_tag_value key H =
     (if key = ''l'' then Length' H else if key = ''t'' then Unixtime H else Expiration H)"

section \<open>A sample message and sample collaborators\<close>

text \<open>Lower-casing of ASCII letters, as \<^verbatim>\<open>strings.ToLower\<close> does on ASCII strings.\<close>

definition ascii_lower :: "string \<Rightarrow> string" where
  "ascii_lower s =
     map (\<lambda>c. if 65 \<le> (of_char c :: nat) \<and> (of_char c :: nat) \<le> 90
               then char_of ((of_char c :: nat) + 32) else c) s"

text \<open>Collaborators for concrete runs: header names are taken as canonical already, the
  digest returns its input, every key record parses to an RSA key, a signature verifies
  when it equals the digest, the cache is empty and the DNS holds one record.\<close>

definition sample_X :: "(unit, string list) externals" where
  "sample_X =
     \<lparr>CanonicalMIMEHeaderKey = (\<lambda>k. k),
      ToLower = ascii_lower,
      HashSum = (\<lambda>h bs. bs),
      ParsePKIXPublicKey = (\<lambda>der. Some (RSAPublicKey ())),
      VerifyPKCS1v15 = (\<lambda>pk h hashed sig. sig = hashed),
      CacheGetHandler = (\<lambda>q w. (None, w @ [''get:'' @ q])),
      DnsFetchHandler = (\<lambda>q w. (Some ''v=DKIM1; p=QUJD'', w @ [''fetch:'' @ q])),
      CacheSetHandler = (\<lambda>q v w. w @ [''set:'' @ q])\<rparr>"

definition sample_sig :: string where
  "sample_sig = ''v=1; a=rsa-sha256; c=relaxed/relaxed; d=example.com; s=sel; h=From:To; bh=QUJD; b=QUJD''"

definition sample_msg :: Message where
  "sample_msg =
     \<lparr>mail_Header = (\<lambda>k. if k = ''DKIM-Signature'' then [sample_sig]
                          else if k = ''From'' then [''  a@example.com'', '' b@example.com'']
                          else []),
      mail_Body = ''hello'' @ [CR, LF]\<rparr>"

definition sample_Dkim :: DKIM where
  "sample_Dkim =
     \<lparr>Header = \<lparr>Version = ''1'', Algorithm = ''rsa-sha256'', Signature = ''ABC'',
                 BodyHash = ''ABC'', Canonization = ''relaxed/relaxed'',
                 Domain' = ''example.com'', Headers = [''From'', ''To''], Identifier = [],
                 Length' = 0, QueryType = [], Selector = ''sel'', Unixtime = 0,
                 Expiration = 0, CopiedHeaders = None\<rparr>,
      Mail = sample_msg, RawMailHeader = (\<lambda>k. []), HeaderName = ''DKIM-Signature'',
      PublicKey = None,
      Status = \<lparr>Valid = False, ValidBody = False, HasPublicKey = False\<rparr>,
      IsBodyRelaxed = True, IsHeaderRelaxed = True,
      bodyHash = None, headerHash = None\<rparr>"

text \<open>A message that has the signature header \<open>v\<close> and nothing else.\<close>

definition sig_only :: "string \<Rightarrow> Message" where
  "sig_only v =
     \<lparr>mail_Header = (\<lambda>k. if k = ''DKIM-Signature'' then [v] else []), mail_Body = []\<rparr>"

section \<open>The body hash input\<close>

lemma ReadBytes_first_line:
  "LF \<notin> set l \<Longrightarrow> ReadBytes (l @ LF # rest) = Some (l @ [LF], rest)"
  by (induction l) (auto simp: ReadBytes_def)

lemma ReadBytes_SomeD:
  assumes "ReadBytes r = Some (l, r')"
  shows "\<exists>l0. LF \<notin> set l0 \<and> l = l0 @ [LF] \<and> r = l0 @ LF # r'"
proof -
  let ?t = "takeWhile (\<lambda>c. c \<noteq> LF) r" and ?d = "dropWhile (\<lambda>c. c \<noteq> LF) r"
  from assms have in_r: "LF \<in> set r" and l: "l = ?t @ [LF]" and r': "r' = tl ?d"
    by (auto simp: ReadBytes_def split: if_splits)
  from in_r have "?d \<noteq> []" by simp
  moreover have "hd ?d = LF" using hd_dropWhile[OF \<open>?d \<noteq> []\<close>] by simp
  ultimately have "?d = LF # r'" using r' by (cases ?d) auto
  then have "r = ?t @ LF # r'" using takeWhile_dropWhile_id[of "\<lambda>c. c \<noteq> LF" r] by simp
  moreover have "LF \<notin> set ?t" using set_takeWhileD by fastforce
  ultimately show ?thesis using l by blast
qed

lemma ReadBytes_append:
  "ReadBytes r = Some (l, r') \<Longrightarrow> ReadBytes (r @ x) = Some (l, r' @ x)"
  using ReadBytes_first_line by (fastforce dest!: ReadBytes_SomeD)

lemma ReadBytes_complete:
  assumes "ReadBytes r = Some (l, r')" and "complete_lines r"
  shows "complete_lines r'"
proof -
  obtain l0 where "r = l0 @ LF # r'" using ReadBytes_SomeD[OF assms(1)] by blast
  with assms(2) show ?thesis by (auto simp: complete_lines_def split: if_splits)
qed

lemma body_loop_append:
  "complete_lines r \<Longrightarrow> body_loop b (r @ x) s = body_loop b x (body_loop b r s)"
proof (induction b r s rule: body_loop.induct)
  case (1 b r s)
  show ?case
  proof (cases "ReadBytes r")
    case None
    then have "LF \<notin> set r" by (auto simp: ReadBytes_def split: if_splits)
    with "1.prems" have "r = []" unfolding complete_lines_def by (metis last_in_set)
    then show ?thesis using None by (subst (3) body_loop.simps) simp
  next
    case (Some p)
    obtain l r' where p: "p = (l, r')" by (cases p)
    have c: "complete_lines r'" using ReadBytes_complete Some p "1.prems" by blast
    have "body_loop b (r @ x) s = body_loop b (r' @ x) (body_step b l s)"
      using ReadBytes_append[of r l r' x] Some p by (subst body_loop.simps) simp
    also have "\<dots> = body_loop b x (body_loop b r' (body_step b l s))"
      using "1.IH"[OF Some _ c, of l] p by simp
    also have "body_loop b r' (body_step b l s) = body_loop b r s"
      using Some p by (subst (2) body_loop.simps) simp
    finally show ?thesis .
  qed
qed

lemma body_loop_fragment: "LF \<notin> set frag \<Longrightarrow> body_loop b frag s = s"
  by (subst body_loop.simps) (simp add: ReadBytes_def)



lemma complete_lines_line: "L \<noteq> [] \<Longrightarrow> last L = LF \<Longrightarrow> complete_lines (B @ L)"
  by (simp add: complete_lines_def)







lemma readBodyTo_fragment:
  "complete_lines B \<Longrightarrow> LF \<notin> set frag \<Longrightarrow> readBodyTo b (B @ frag) = readBodyTo b B"
  by (simp add: readBodyTo_def body_loop_append body_loop_fragment)














lemma snd_GetBodyHash:
  "snd (GetBodyHash X Dkim) =
     (case bodyHash Dkim of
        Some h \<Rightarrow> h
      | None \<Rightarrow> HashSum X (GetHasher Dkim) (readBodyTo (IsBodyRelaxed Dkim) (mail_Body (Mail Dkim))))"
  by (simp add: GetBodyHash_def Let_def split: option.splits)




text \<open>
  C10. For every body whose final line is not terminated by a line feed (whole lines
  \<open>B\<close> followed by a fragment without a line feed), the bytes of the fragment are not
  part of the body hash input, in simple and in relaxed mode, so two bodies that differ
  only in the fragment have the same hash input and the same body hash.
\<close>

theorem unterminated_final_line_excluded:
  assumes "complete_lines B" and "LF \<notin> set frag" and "LF \<notin> set frag'"
  shows "readBodyTo relaxed (B @ frag) = readBodyTo relaxed B
       \<and> readBodyTo relaxed (B @ frag) = readBodyTo relaxed (B @ frag')
       \<and> snd (GetBodyHash X (Dkim\<lparr>Mail := (Mail Dkim)\<lparr>mail_Body := B @ frag\<rparr>\<rparr>))
           = snd (GetBodyHash X (Dkim\<lparr>Mail := (Mail Dkim)\<lparr>mail_Body := B @ frag'\<rparr>\<rparr>))"
  using assms
  by (simp add: readBodyTo_fragment snd_GetBodyHash GetHasher_def split: option.splits)

theorem unterminated_final_line_excluded_witness:
  "complete_lines (''one '' @ [CR, LF]) \<and> LF \<notin> set ''tail'' \<and> LF \<notin> set ''other''
   \<and> readBodyTo False ((''one '' @ [CR, LF]) @ ''tail'') = readBodyTo False (''one '' @ [CR, LF])
   \<and> readBodyTo False ((''one '' @ [CR, LF]) @ ''tail'') = readBodyTo False ((''one '' @ [CR, LF]) @ ''other'')
   \<and> readBodyTo False ((''one '' @ [CR, LF]) @ ''tail'') = ''one '' @ [CR, LF]
   \<and> snd (GetBodyHash sample_X
            (sample_Dkim\<lparr>Mail := (Mail sample_Dkim)\<lparr>mail_Body := (''one '' @ [CR, LF]) @ ''tail''\<rparr>\<rparr>))
       = snd (GetBodyHash sample_X
            (sample_Dkim\<lparr>Mail := (Mail sample_Dkim)\<lparr>mail_Body := (''one '' @ [CR, LF]) @ ''other''\<rparr>\<rparr>))"
proof -
  have h1: "complete_lines (''one '' @ [CR, LF])"
    by (simp add: complete_lines_def)
  have h2: "LF \<notin> set ''tail''" and h3: "LF \<notin> set ''other''"
    by simp_all
  have v: "readBodyTo False ((''one '' @ [CR, LF]) @ ''tail'') = ''one '' @ [CR, LF]"
    by code_simp
  show ?thesis
    using h1 h2 h3 v
      unterminated_final_line_excluded [OF h1 h2 h3, of False sample_X sample_Dkim]
    by blast
qed

section \<open>Header canonicalization\<close>

lemma folded_Cons: "folded (a # w) = (a \<noteq> TAB \<and> (a = SP \<longrightarrow> w = [] \<or> hd w \<noteq> SP) \<and> folded w)"
  by (cases w) auto

lemma fold_wsp_hd:
  "c \<noteq> SP \<Longrightarrow> c \<noteq> TAB \<Longrightarrow> fold_wsp (c # cs) = c # fold_wsp cs"
  by simp

lemma fold_wsp_hd_not_SP:
  "w = [] \<or> (hd w \<noteq> SP \<and> hd w \<noteq> TAB) \<Longrightarrow> fold_wsp w = [] \<or> hd (fold_wsp w) \<noteq> SP"
  by (cases w) auto

lemma dropWhile_wsp_hd:
  "dropWhile (\<lambda>x. x = SP \<or> x = TAB) cs = [] \<or>
   (hd (dropWhile (\<lambda>x. x = SP \<or> x = TAB) cs) \<noteq> SP \<and> hd (dropWhile (\<lambda>x. x = SP \<or> x = TAB) cs) \<noteq> TAB)"
  using hd_dropWhile[of "\<lambda>x. x = SP \<or> x = TAB" cs] by blast

lemma folded_fold_wsp: "folded (fold_wsp v)"
proof (induction v rule: fold_wsp.induct)
  case 1
  show ?case by simp
next
  case (2 c cs)
  show ?case
  proof (cases "c = SP \<or> c = TAB")
    case True
    then show ?thesis
      using 2 fold_wsp_hd_not_SP[OF dropWhile_wsp_hd[of cs]]
      by (auto simp: folded_Cons)
  next
    case False
    then show ?thesis using 2 by (auto simp: folded_Cons)
  qed
qed

lemma fold_wsp_folded: "folded w \<Longrightarrow> fold_wsp w = w"
proof (induction w rule: folded.induct)
  case (1 a b cs)
  then show ?case by (cases "a = SP") auto
qed auto

lemma strip_sp_crlf_Cons: "a \<noteq> SP \<Longrightarrow> strip_sp_crlf (a # w) = a # strip_sp_crlf w"
  by (cases w rule: strip_sp_crlf.cases) auto

lemma strip_sp_crlf_hd:
  "\<exists>t. strip_sp_crlf (c # cs) = c # t \<or> (c = SP \<and> strip_sp_crlf (c # cs) = CR # t)"
  by (cases "c # cs" rule: strip_sp_crlf.cases) auto

lemma no_sp_crlf_Cons: "a \<noteq> SP \<Longrightarrow> no_sp_crlf (a # w) = no_sp_crlf w"
  by (cases w rule: no_sp_crlf.cases) auto

lemma strip_sp_crlf_id: "no_sp_crlf w \<Longrightarrow> strip_sp_crlf w = w"
  by (induction w rule: strip_sp_crlf.induct) auto

lemma folded_strip_sp_crlf: "folded w \<Longrightarrow> folded (strip_sp_crlf w)"
proof (induction w rule: strip_sp_crlf.induct)
  case (1 a b c cs)
  show ?case
  proof (cases "a = SP \<and> b = CR \<and> c = LF")
    case True
    then show ?thesis using 1 by (simp add: folded_Cons)
  next
    case False
    obtain t where t: "strip_sp_crlf (b # c # cs) = b # t \<or> (b = SP \<and> strip_sp_crlf (b # c # cs) = CR # t)"
      using strip_sp_crlf_hd by blast
    from False 1 have "folded (strip_sp_crlf (b # c # cs))" by simp
    moreover from "1.prems" have "a \<noteq> TAB" "\<not> (a = SP \<and> b = SP)" by simp_all
    ultimately show ?thesis using False t by (auto simp: folded_Cons)
  qed
qed auto

lemma no_sp_crlf_strip: "folded w \<Longrightarrow> no_sp_crlf (strip_sp_crlf w)"
proof (induction w rule: strip_sp_crlf.induct)
  case (1 a b c cs)
  show ?case
  proof (cases "a = SP \<and> b = CR \<and> c = LF")
    case True
    then show ?thesis using 1 by (simp add: no_sp_crlf_Cons folded_Cons)
  next
    case False
    note nm = this
    from False 1 have IH: "no_sp_crlf (strip_sp_crlf (b # c # cs))" by simp
    show ?thesis
    proof (cases "a = SP")
      case False
      then show ?thesis using nm IH by (simp add: no_sp_crlf_Cons)
    next
      case True
      with "1.prems" have b: "b \<noteq> SP" by simp
      obtain t where t: "strip_sp_crlf (c # cs) = c # t \<or> (c = SP \<and> strip_sp_crlf (c # cs) = CR # t)"
        using strip_sp_crlf_hd by blast
      have "strip_sp_crlf (a # b # c # cs) = a # b # strip_sp_crlf (c # cs)"
        using nm b by (simp add: strip_sp_crlf_Cons)
      moreover have "no_sp_crlf (b # strip_sp_crlf (c # cs))"
        using IH b by (simp add: strip_sp_crlf_Cons)
      ultimately show ?thesis using t nm True by auto
    qed
  qed
qed auto

text \<open>
  C4. Relaxed header canonicalization is idempotent: for every byte string \<open>v\<close>,
  canonicalizing the relaxed canonicalization of \<open>v\<close> returns it unchanged.
\<close>

theorem canonizeHeader_relaxed_idempotent:
  "canonizeHeader True (canonizeHeader True v) = canonizeHeader True v"
proof (cases "v = []")
  case True
  then show ?thesis by (simp add: canonizeHeader_def)
next
  case False
  let ?r = "strip_sp_crlf (fold_wsp v)"
  have f: "folded ?r" by (rule folded_strip_sp_crlf) (rule folded_fold_wsp)
  have "strip_sp_crlf (fold_wsp ?r) = ?r"
    using fold_wsp_folded[OF f] strip_sp_crlf_id[OF no_sp_crlf_strip[OF folded_fold_wsp]] by simp
  then show ?thesis using False by (simp add: canonizeHeader_def)
qed

section \<open>The signature-header parser\<close>

lemma kept_names_Cons:
  "kept_names p (k # ks) = (if p \<noteq> k then k # kept_names k ks else kept_names k ks)"
  by (simp add: kept_names_def)

lemma h_loop_kept:
  "h_loop ks (Dkim, p) =
     (Dkim\<lparr>Header := (Header Dkim)\<lparr>Headers := Headers (Header Dkim) @ kept_names p ks\<rparr>\<rparr>,
      last (p # ks))"
proof (induction ks arbitrary: Dkim p)
  case Nil
  show ?case by (simp add: kept_names_def)
next
  case (Cons k ks)
  show ?case by (simp add: Cons.IH kept_names_Cons)
qed

lemma remdups_adj_hd: "remdups_adj (k # ks) = k # tl (remdups_adj (k # ks))"
  by (cases ks) auto

lemma kept_names_remdups_adj: "kept_names p ks = tl (remdups_adj (p # ks))"
proof (induction ks arbitrary: p)
  case Nil
  show ?case by (simp add: kept_names_def)
next
  case (Cons k ks)
  show ?case
    using remdups_adj_hd[of k ks] by (simp add: kept_names_Cons Cons.IH)
qed

lemma Split_nonempty: "Split s sep \<noteq> []"
  by (induction s) (auto simp: Let_def)

text \<open>
  C8 (amended). For every \<^verbatim>\<open>h\<close> tag value, splitting on \<^verbatim>\<open>:\<close> and parsing drops an
  entry exactly when it equals the entry right before it, where the entry before the
  first one is \<^verbatim>\<open>prev_key\<close>: the empty string, or the last entry of an earlier \<^verbatim>\<open>h\<close>
  tag of the same header (no other tag changes it). So consecutive equal names are
  collapsed to one, equal names separated by a different name are both kept, and a
  first entry equal to \<^verbatim>\<open>prev_key\<close> (an empty first entry, when no \<^verbatim>\<open>h\<close> tag came
  before) is dropped too.
\<close>

theorem h_tag_adjacent_dedup:
  "parse_tag (Dkim, prev_key) ''h'' val =
     Inr (Dkim\<lparr>Header := (Header Dkim)
               \<lparr>Headers := Headers (Header Dkim) @ kept_names prev_key (Split val (CHR '':''))\<rparr>\<rparr>,
          last (Split val (CHR '':'')))
   \<and> (hd (Split val (CHR '':'')) \<noteq> prev_key \<longrightarrow>
        kept_names prev_key (Split val (CHR '':'')) = remdups_adj (Split val (CHR '':'')))
   \<and> (hd (Split val (CHR '':'')) = prev_key \<longrightarrow>
        kept_names prev_key (Split val (CHR '':'')) = tl (remdups_adj (Split val (CHR '':''))))
   \<and> (key \<noteq> ''h'' \<and> parse_tag (Dkim, prev_key) key val' = Inr st' \<longrightarrow> snd st' = prev_key)"
proof (intro conjI impI)
  show "parse_tag (Dkim, prev_key) ''h'' val =
     Inr (Dkim\<lparr>Header := (Header Dkim)
               \<lparr>Headers := Headers (Header Dkim) @ kept_names prev_key (Split val (CHR '':''))\<rparr>\<rparr>,
          last (Split val (CHR '':'')))"
    using Split_nonempty[of val "CHR '':''"]
    by (simp add: parse_tag_def h_loop_kept)
next
  assume "hd (Split val (CHR '':'')) \<noteq> prev_key"
  then show "kept_names prev_key (Split val (CHR '':'')) = remdups_adj (Split val (CHR '':''))"
    using Split_nonempty[of val "CHR '':''"]
    by (cases "Split val (CHR '':'')") (auto simp: kept_names_remdups_adj)
next
  assume "hd (Split val (CHR '':'')) = prev_key"
  then show "kept_names prev_key (Split val (CHR '':'')) = tl (remdups_adj (Split val (CHR '':'')))"
    using Split_nonempty[of val "CHR '':''"]
    by (cases "Split val (CHR '':'')") (auto simp: kept_names_remdups_adj)
next
  assume "key \<noteq> ''h'' \<and> parse_tag (Dkim, prev_key) key val' = Inr st'"
  then show "snd st' = prev_key"
    by (auto simp: parse_tag_def Let_def split: if_splits option.splits sum.splits)
qed

theorem h_tag_adjacent_dedup_witness:
  "hd (Split ''a:a:b:a'' (CHR '':'')) \<noteq> []
   \<and> kept_names [] (Split ''a:a:b:a'' (CHR '':'')) = remdups_adj (Split ''a:a:b:a'' (CHR '':''))
   \<and> kept_names [] (Split ''a:a:b:a'' (CHR '':'')) = [''a'', ''b'', ''a'']
   \<and> hd (Split '':a'' (CHR '':'')) = []
   \<and> kept_names [] (Split '':a'' (CHR '':'')) = tl (remdups_adj (Split '':a'' (CHR '':'')))
   \<and> ''d'' \<noteq> ''h''
   \<and> parse_tag (sample_Dkim, ''a'') ''d'' ''x.org''
       = Inr (sample_Dkim\<lparr>Header := (Header sample_Dkim)\<lparr>Domain' := ''x.org''\<rparr>\<rparr>, ''a'')
   \<and> snd (sample_Dkim\<lparr>Header := (Header sample_Dkim)\<lparr>Domain' := ''x.org''\<rparr>\<rparr>, ''a'') = ''a''"
proof -
  have h1: "hd (Split ''a:a:b:a'' (CHR '':'')) \<noteq> []"
    by simp
  have v1: "kept_names [] (Split ''a:a:b:a'' (CHR '':'')) = [''a'', ''b'', ''a'']"
    by (simp add: kept_names_def)
  have h2: "hd (Split '':a'' (CHR '':'')) = []"
    by simp
  have h3: "parse_tag (sample_Dkim, ''a'') ''d'' ''x.org''
       = Inr (sample_Dkim\<lparr>Header := (Header sample_Dkim)\<lparr>Domain' := ''x.org''\<rparr>\<rparr>, ''a'')"
    by (simp add: parse_tag_def Let_def)
  show ?thesis
    using h1 v1 h2 h3
      h_tag_adjacent_dedup [of sample_Dkim "[]" "''a:a:b:a''" "''d''" "''x.org''"]
      h_tag_adjacent_dedup [of sample_Dkim "[]" "'':a''" "''d''" "''x.org''"]
      h_tag_adjacent_dedup [of sample_Dkim "''a''" "''a''" "''d''" "''x.org''"
         "(sample_Dkim\<lparr>Header := (Header sample_Dkim)\<lparr>Domain' := ''x.org''\<rparr>\<rparr>, ''a'')"]
    by simp
qed

text \<open>The claim as stated: in the header \<^verbatim>\<open>h=:a\<close> the first entry is empty and nothing
  precedes it, yet it is dropped.\<close>

theorem h_tag_adjacent_dedup_counterexample:
  "Split '':a'' (CHR '':'') = [[], ''a'']
   \<and> map_sum id (\<lambda>d. Headers (Header d)) (NewDKIM sample_X ''DKIM-Signature'' (sig_only ''h=:a''))
       = Inr [''a'']"
proof -
  have a: "Split '':a'' (CHR '':'') = [[], ''a'']"
    by simp
  have b: "map_sum id (\<lambda>d. Headers (Header d)) (NewDKIM sample_X ''DKIM-Signature'' (sig_only ''h=:a''))
       = Inr [''a'']"
    by code_simp
  show ?thesis using a b by simp
qed

lemma parse_items_append:
  "parse_items (pre @ rest) st =
     (case parse_items pre st of Inl e \<Rightarrow> Inl e | Inr st1 \<Rightarrow> parse_items rest st1)"
  by (induction pre arbitrary: st) (auto split: sum.splits)

lemma SplitN2_key_value:
  "CHR ''='' \<notin> set key \<Longrightarrow> SplitN2 (key @ CHR ''='' # val) (CHR ''='') = [key, val]"
  by (induction key) (auto simp: SplitN2_def)

lemma parse_item_key_value:
  "CHR ''='' \<notin> set key \<Longrightarrow> parse_item st (key @ CHR ''='' # val) = parse_tag st key val"
  by (simp add: parse_item_def SplitN2_key_value)

lemma parse_tag_l:
  "parse_tag st ''l'' val =
     (case Atoi val of
        None \<Rightarrow> Inl ErrMalformedTagValue
      | Some n \<Rightarrow> Inr ((fst st)\<lparr>Header := (Header (fst st))\<lparr>Length' := n\<rparr>\<rparr>, snd st))"
  by (simp add: parse_tag_def Let_def)

lemma parse_tag_t:
  "parse_tag st ''t'' val =
     (case Atoi val of
        None \<Rightarrow> Inl ErrMalformedTagValue
      | Some n \<Rightarrow> Inr ((fst st)\<lparr>Header := (Header (fst st))\<lparr>Unixtime := n\<rparr>\<rparr>, snd st))"
  by (simp add: parse_tag_def Let_def)

lemma parse_tag_x:
  "parse_tag st ''x'' val =
     (case Atoi val of
        None \<Rightarrow> Inl ErrMalformedTagValue
      | Some n \<Rightarrow> Inr ((fst st)\<lparr>Header := (Header (fst st))\<lparr>Expiration := n\<rparr>\<rparr>, snd st))"
  by (simp add: parse_tag_def Let_def)

lemma Atoi_range: "Atoi val = Some n \<Longrightarrow> - (2 ^ 63) \<le> n \<and> n < 2 ^ 63"
  by (simp add: Atoi_def Let_def split: if_splits)

text \<open>
  C7 (amended). For every signature header, the values of the \<^verbatim>\<open>l\<close>, \<^verbatim>\<open>t\<close> and \<^verbatim>\<open>x\<close>
  tags parse as decimal integers with an optional sign, as \<^verbatim>\<open>strconv.Atoi\<close> reads
  them: a value that \<^verbatim>\<open>Atoi\<close> rejects makes the tag, and the whole header once the
  items before it have parsed, fail with \<^verbatim>\<open>ErrMalformedTagValue\<close>; a value that it
  accepts is stored as it is, negative or not, within the range of \<^verbatim>\<open>int\<close>.
\<close>

theorem int_tags_signed:
  assumes "key = ''l'' \<or> key = ''t'' \<or> key = ''x''"
  shows "(Atoi val = None \<longrightarrow>
            parse_tag st key val = Inl ErrMalformedTagValue
          \<and> (parse_items pre st0 = Inr st \<longrightarrow>
               parse_items (pre @ (key @ ''='' @ val) # post) st0 = Inl ErrMalformedTagValue))
       \<and> (\<forall>n. Atoi val = Some n \<longrightarrow>
            (\<exists>st'. parse_tag st key val = Inr st'
                  \<and> int_tag_value key (Header (fst st')) = n
                  \<and> - (2 ^ 63) \<le> n \<and> n < 2 ^ 63))"
proof (intro conjI impI allI)
  assume a: "Atoi val = None"
  show m: "parse_tag st key val = Inl ErrMalformedTagValue"
    using a assms by (elim disjE) (simp_all add: parse_tag_l parse_tag_t parse_tag_x)
  assume p: "parse_items pre st0 = Inr st"
  have "CHR ''='' \<notin> set key" using assms by (elim disjE) simp_all
  then show "parse_items (pre @ (key @ ''='' @ val) # post) st0 = Inl ErrMalformedTagValue"
    using p m by (simp add: parse_items_append parse_item_key_value)
next
  fix n
  assume a: "Atoi val = Some n"
  have "parse_tag st key val = Inr (fst (projr (parse_tag st key val)), snd (projr (parse_tag st key val)))
        \<and> int_tag_value key (Header (fst (projr (parse_tag st key val)))) = n"
    using a assms
    by (elim disjE) (simp_all add: parse_tag_l parse_tag_t parse_tag_x int_tag_value_def)
  then show "\<exists>st'. parse_tag st key val = Inr st'
              \<and> int_tag_value key (Header (fst st')) = n
              \<and> - (2 ^ 63) \<le> n \<and> n < 2 ^ 63"
    using Atoi_range[OF a] by (metis fst_conv)
qed

theorem int_tags_signed_witness:
  "(''l'' = ''l'' \<or> ''l'' = ''t'' \<or> ''l'' = ''x'')
   \<and> Atoi ''12x'' = None
   \<and> parse_items [''v=1''] (sample_Dkim, []) = Inr (sample_Dkim, [])
   \<and> parse_tag (sample_Dkim, []) ''l'' ''12x'' = Inl ErrMalformedTagValue
   \<and> parse_items ([''v=1''] @ (''l'' @ ''='' @ ''12x'') # [''d=x.org'']) (sample_Dkim, [])
       = Inl ErrMalformedTagValue
   \<and> Atoi ''-5'' = Some (- 5)
   \<and> (\<exists>st'. parse_tag (sample_Dkim, []) ''l'' ''-5'' = Inr st'
            \<and> int_tag_value ''l'' (Header (fst st')) = - 5)"
proof -
  have k: "''l'' = ''l'' \<or> ''l'' = ''t'' \<or> ''l'' = ''x''"
    by simp
  have a1: "Atoi ''12x'' = None"
    by code_simp
  have a2: "Atoi ''-5'' = Some (- 5)"
    by code_simp
  have p: "parse_items [''v=1''] (sample_Dkim, []) = Inr (sample_Dkim, [])"
    by (simp add: parse_item_def SplitN2_def parse_tag_def Let_def sample_Dkim_def)
  show ?thesis
    using k a1 a2 p
      int_tags_signed [OF k, of "''12x''" "(sample_Dkim, [])" "[''v=1'']" "(sample_Dkim, [])" "[''d=x.org'']"]
      int_tags_signed [OF k, of "''-5''" "(sample_Dkim, [])" "[''v=1'']" "(sample_Dkim, [])" "[''d=x.org'']"]
    by blast
qed

text \<open>The claim as stated: the header \<^verbatim>\<open>v=1; l=-5\<close> parses, and the parsed header carries
  the negative length.\<close>

theorem int_tags_signed_counterexample:
  "map_sum id (\<lambda>d. Length' (Header d)) (NewDKIM sample_X ''DKIM-Signature'' (sig_only ''v=1; l=-5''))
     = Inr (- 5)"
  by code_simp

end
